theory Spec2Isabelle
  imports Main
begin

section \<open>Data model\<close>

text \<open>
  The views and serializers of \<^verbatim>\<open>cq\<close> work on Django models through the ORM. A table is
  modelled as the list of its rows in the order the database returns them (no query of the
  source asks for an ordering), a primary or foreign key as a natural number, a nullable
  column as an option, and a timestamp as an integer. Each record carries the columns the
  source reads or writes.
\<close>

type_synonym pk = nat
type_synonym timestamp = int

record Research =
  rs_id :: pk

record Article =
  a_id :: pk
  a_research :: pk

record Sentence =
  s_id :: pk
  s_article :: pk

record User =
  u_id :: pk
  u_username :: string

record Profile =
  p_id :: pk
  p_user :: pk
  p_article :: "pk option"

record Take =
  t_id :: pk
  t_user :: pk
  t_article :: pk
  t_question :: pk

text \<open>
  Modelled from the spec: \<^verbatim>\<open>cq/models.py\<close> is not among the sources, so the columns of
  Milestone follow the data model of the specification: a nullable \<open>found\<close> marker, a
  nullable \<open>copied_from\<close> reference and a \<open>response_at\<close> timestamp that is never null.
\<close>

record Milestone =
  m_id :: pk
  m_user :: pk
  m_take :: pk
  m_found :: "timestamp option"
  m_copied_from :: "pk option"
  m_response_at :: timestamp

record Response =
  r_id :: pk
  r_user :: pk
  r_take :: pk
  r_milestone :: pk
  r_sentence :: pk

record db =
  research_objects :: "Research list"
  article_objects :: "Article list"
  sentence_objects :: "Sentence list"
  user_objects :: "User list"
  profile_objects :: "Profile list"
  take_objects :: "Take list"
  milestone_objects :: "Milestone list"
  response_objects :: "Response list"

datatype error = Http404 | ValidationError | TypeError | BadRequest

text \<open>Reverse relations: \<^verbatim>\<open>take.milestones\<close>, \<^verbatim>\<open>milestone.responses\<close>, \<^verbatim>\<open>article.profiles\<close>.\<close>

definition take_milestones :: "db \<Rightarrow> Take \<Rightarrow> Milestone list" where
  "take_milestones d x = filter (\<lambda>m. m_take m = t_id x) (milestone_objects d)"

definition milestone_responses :: "db \<Rightarrow> Milestone \<Rightarrow> Response list" where
  "milestone_responses d m = filter (\<lambda>r. r_milestone r = m_id m) (response_objects d)"

definition article_profiles :: "db \<Rightarrow> Article \<Rightarrow> Profile list" where
  "article_profiles d a = filter (\<lambda>p. p_article p = Some (a_id a)) (profile_objects d)"

text \<open>
  \<^verbatim>\<open>functools.reduce(f, xs)\<close> without an initial value: a left fold started at the first
  element; on an empty sequence Python raises TypeError.
\<close>

fun reduce :: "('a \<Rightarrow> 'a \<Rightarrow> 'a) \<Rightarrow> 'a list \<Rightarrow> error + 'a" where
  "reduce f [] = Inl TypeError"
| "reduce f (x # xs) = Inr (foldl f x xs)"

section \<open>The suggestions view: the latest milestone of the sibling takes\<close>

text \<open>
  \<^verbatim>\<open>TakeBindMilestoneViewSet.suggestions\<close>, lines 108 to 115 of \<^verbatim>\<open>views.py\<close>: the takes of
  another article with the same question, their milestones that are no copy, have a found
  marker and own a response, flattened, and reduced to the one with the latest
  \<open>response_at\<close>.
\<close>

definition suggestions_milestones_flatten :: "db \<Rightarrow> Take \<Rightarrow> Milestone list" where
  "suggestions_milestones_flatten d tk =
     (let related_takes =
            filter (\<lambda>t. t_question t = t_question tk)
              (filter (\<lambda>t. t_article t \<noteq> t_article tk) (take_objects d));
          query_set = related_takes;
          milestones =
            map (\<lambda>x. filter (\<lambda>m. milestone_responses d m \<noteq> [])
                        (filter (\<lambda>m. m_found m \<noteq> None)
                          (filter (\<lambda>m. m_copied_from m = None) (take_milestones d x))))
              query_set
      in concat milestones)"

definition suggestions_latest_milestone :: "db \<Rightarrow> Take \<Rightarrow> error + Milestone option" where
  "suggestions_latest_milestone d tk =
     (let milestones_flatten = suggestions_milestones_flatten d tk
      in if length milestones_flatten = 0 then Inr None
         else (case reduce (\<lambda>x y. if m_response_at x < m_response_at y then y else x)
                      milestones_flatten of
                 Inl e \<Rightarrow> Inl e
               | Inr m \<Rightarrow> Inr (Some m)))"

text \<open>
  \<^verbatim>\<open>self.get_object()\<close> of a viewset over \<^verbatim>\<open>Take.objects.all()\<close>: the row with the given
  primary key, or a 404.
\<close>

definition get_object :: "Take list \<Rightarrow> pk \<Rightarrow> error + Take" where
  "get_object queryset k =
     (case filter (\<lambda>t. t_id t = k) queryset of [] \<Rightarrow> Inl Http404 | t # _ \<Rightarrow> Inr t)"

definition suggestions :: "db \<Rightarrow> pk \<Rightarrow> error + Response list" where
  "suggestions d k =
     (case get_object (take_objects d) k of
        Inl e \<Rightarrow> Inl e
      | Inr tk \<Rightarrow>
          (case suggestions_latest_milestone d tk of
             Inl e \<Rightarrow> Inl e
           | Inr None \<Rightarrow> Inr []
           | Inr (Some latest_milestone) \<Rightarrow> Inr (milestone_responses d latest_milestone)))"

section \<open>User creation: the article with the fewest profiles\<close>

text \<open>
  An \<^verbatim>\<open>AutoField\<close> gives a new row a key that no row of the table has; here the successor
  of the greatest key in the table.
\<close>

definition next_pk :: "pk list \<Rightarrow> pk" where
  "next_pk ids = Suc (foldr max ids 0)"

text \<open>
  \<^verbatim>\<open>UserViewSet.create\<close>, lines 168 and 169 of \<^verbatim>\<open>views.py\<close>. \<open>research\<close> is the queryset
  \<^verbatim>\<open>Research.objects.filter(pk=research_id)\<close>, so the articles are those of a research in it.
\<close>

definition research_articles :: "db \<Rightarrow> Research list \<Rightarrow> Article list" where
  "research_articles d research =
     filter (\<lambda>a. a_research a \<in> set (map rs_id research)) (article_objects d)"

definition target_article :: "db \<Rightarrow> Research list \<Rightarrow> error + Article" where
  "target_article d research =
     (let articles = research_articles d research
      in reduce (\<lambda>x y. if length (article_profiles d x) > length (article_profiles d y)
                         then y else x) articles)"

record UserData =
  ud_research :: "pk option"
  ud_username :: string

text \<open>
  Modelled from the spec: the Profile that \<^verbatim>\<open>instance.profile\<close> reads right after the save
  is created outside the sources; the specification has one Profile per User, so saving
  the user adds a Profile with no article.
\<close>

text \<open>
  \<^verbatim>\<open>UserViewSet.create\<close>. The validation of \<^verbatim>\<open>UserSerializer\<close> is that of Django's User
  model, of which the model keeps the uniqueness of the username. An exception after the
  save leaves the new rows in the tables: the result pairs the outcome with the database.
\<close>

definition user_create :: "db \<Rightarrow> UserData \<Rightarrow> (error + User) \<times> db" where
  "user_create d data =
     (let research_id = ud_research data;
          research = filter (\<lambda>r. Some (rs_id r) = research_id) (research_objects d)
      in if research = [] then (Inl BadRequest, d)
         else if ud_username data \<in> set (map u_username (user_objects d))
         then (Inl ValidationError, d)
         else
           (let instance = \<lparr>u_id = next_pk (map u_id (user_objects d)),
                            u_username = ud_username data\<rparr>;
                profile = \<lparr>p_id = next_pk (map p_id (profile_objects d)),
                           p_user = u_id instance, p_article = None\<rparr>;
                d1 = d\<lparr>user_objects := user_objects d @ [instance],
                        profile_objects := profile_objects d @ [profile]\<rparr>
            in if research_id \<noteq> None
               then (case target_article d1 research of
                       Inl e \<Rightarrow> (Inl e, d1)
                     | Inr target \<Rightarrow>
                         (Inr instance,
                          d1\<lparr>profile_objects :=
                                map (\<lambda>p. if p_id p = p_id profile
                                          then p\<lparr>p_article := Some (a_id target),
                                                 p_user := u_id instance\<rparr>
                                          else p)
                                  (profile_objects d1)\<rparr>))
               else (Inr instance, d1)))"

section \<open>Renewing a milestone\<close>

text \<open>
  \<^verbatim>\<open>TakeBindMilestoneViewSet.renew_milestone\<close>. The request carries the optional list
  \<open>sentences\<close> and the writable columns of a Milestone. A ModelSerializer checks of a
  foreign key that the row it names exists, and nothing more. The first serializer saves
  the Milestone before the responses are validated, so a failure of the second leaves it
  in the table. The third serializer (lines 99 to 101) writes the same take into the
  Milestone again and changes nothing.
\<close>

record RenewData =
  rd_sentences :: "pk list option"
  rd_found :: "timestamp option"
  rd_copied_from :: "pk option"

definition milestone_is_valid :: "db \<Rightarrow> pk \<Rightarrow> RenewData \<Rightarrow> bool" where
  "milestone_is_valid d take_id data =
     (take_id \<in> set (map t_id (take_objects d)) \<and>
      (case rd_copied_from data of
         None \<Rightarrow> True
       | Some c \<Rightarrow> c \<in> set (map m_id (milestone_objects d))))"

definition response_is_valid :: "db \<Rightarrow> pk \<times> pk \<times> pk \<Rightarrow> bool" where
  "response_is_valid d item =
     (case item of (take_id, milestone_id, sentence_id) \<Rightarrow>
        take_id \<in> set (map t_id (take_objects d)) \<and>
        milestone_id \<in> set (map m_id (milestone_objects d)) \<and>
        sentence_id \<in> set (map s_id (sentence_objects d)))"

fun save_responses :: "(pk \<times> pk \<times> pk) list \<Rightarrow> pk \<Rightarrow> Response list \<Rightarrow> Response list" where
  "save_responses [] u tbl = tbl"
| "save_responses ((take_id, milestone_id, sentence_id) # items) u tbl =
     save_responses items u
       (tbl @ [\<lparr>r_id = next_pk (map r_id tbl), r_user = u, r_take = take_id,
                r_milestone = milestone_id, r_sentence = sentence_id\<rparr>])"

definition renew_milestone ::
  "db \<Rightarrow> pk \<Rightarrow> pk \<Rightarrow> RenewData \<Rightarrow> timestamp \<Rightarrow> (error + Milestone \<times> Response list) \<times> db" where
  "renew_milestone d request_user k data now =
     (case get_object (take_objects d) k of
        Inl e \<Rightarrow> (Inl e, d)
      | Inr tk \<Rightarrow>
          (let sentences = (case rd_sentences data of None \<Rightarrow> [] | Some s \<Rightarrow> s)
           in if \<not> milestone_is_valid d (t_id tk) data then (Inl ValidationError, d)
              else
                (let milestone = \<lparr>m_id = next_pk (map m_id (milestone_objects d)),
                                  m_user = request_user, m_take = t_id tk,
                                  m_found = rd_found data,
                                  m_copied_from = rd_copied_from data,
                                  m_response_at = now\<rparr>;
                     d1 = d\<lparr>milestone_objects := milestone_objects d @ [milestone]\<rparr>;
                     response_form =
                       map (\<lambda>sentence_id. (t_id tk, m_id milestone, sentence_id)) sentences
                 in if \<not> list_all (response_is_valid d1) response_form
                    then (Inl ValidationError, d1)
                    else
                      (let d2 = d1\<lparr>response_objects :=
                                      save_responses response_form request_user
                                        (response_objects d1)\<rparr>
                       in (Inr (milestone, milestone_responses d2 milestone), d2)))))"

section \<open>Creating a take with a seeded milestone\<close>

text \<open>
  \<^verbatim>\<open>TakeBindMilestoneSerializer.create\<close>, lines 155 to 183 of \<^verbatim>\<open>serializers.py\<close>. Its own
  comment reads: check if there is a Take related to both the same Article and Question.
  The milestones are filtered by \<open>copied_from\<close> and \<open>found\<close> only. In this revision of
  the file the class stands inside a module-level string literal; the model follows its
  text. The columns of the new rows that the source does not set take the defaults of the
  data model, and \<open>response_at\<close> the time of the call.
\<close>

record ValidatedData =
  vd_article :: pk
  vd_question :: pk

definition create_milestones_flatten :: "db \<Rightarrow> ValidatedData \<Rightarrow> Milestone list" where
  "create_milestones_flatten d validated_data =
     (let related_takes =
            filter (\<lambda>t. t_question t = vd_question validated_data)
              (filter (\<lambda>t. t_article t = vd_article validated_data) (take_objects d));
          query_set = related_takes;
          milestones =
            map (\<lambda>x. filter (\<lambda>m. m_found m \<noteq> None)
                        (filter (\<lambda>m. m_copied_from m = None) (take_milestones d x)))
              query_set
      in concat milestones)"

definition create_latest_milestone :: "db \<Rightarrow> ValidatedData \<Rightarrow> error + Milestone option" where
  "create_latest_milestone d validated_data =
     (let milestones_flatten = create_milestones_flatten d validated_data
      in if length milestones_flatten = 0 then Inr None
         else (case reduce (\<lambda>x y. if m_response_at x < m_response_at y then y else x)
                      milestones_flatten of
                 Inl e \<Rightarrow> Inl e
               | Inr m \<Rightarrow> Inr (Some m)))"

text \<open>
  The loop of lines 174 to 178: each response of the source is saved again with no primary
  key, the new milestone and the new user; its take and its sentence stay.
\<close>

fun copy_responses :: "Response list \<Rightarrow> pk \<Rightarrow> pk \<Rightarrow> Response list \<Rightarrow> Response list" where
  "copy_responses [] milestone_id u tbl = tbl"
| "copy_responses (response # rest) milestone_id u tbl =
     copy_responses rest milestone_id u
       (tbl @ [response\<lparr>r_id := next_pk (map r_id tbl), r_milestone := milestone_id,
                       r_user := u\<rparr>])"

definition create :: "db \<Rightarrow> pk \<Rightarrow> ValidatedData \<Rightarrow> timestamp \<Rightarrow> (error + Take) \<times> db" where
  "create d request_user validated_data now =
     (case create_latest_milestone d validated_data of
        Inl e \<Rightarrow> (Inl e, d)
      | Inr (Some latest_milestone) \<Rightarrow>
          (let tk = \<lparr>t_id = next_pk (map t_id (take_objects d)), t_user = request_user,
                     t_article = vd_article validated_data,
                     t_question = vd_question validated_data\<rparr>;
               d1 = d\<lparr>take_objects := take_objects d @ [tk]\<rparr>;
               milestone = \<lparr>m_id = next_pk (map m_id (milestone_objects d1)),
                            m_user = request_user, m_take = t_id tk,
                            m_found = m_found latest_milestone,
                            m_copied_from = Some (m_id latest_milestone),
                            m_response_at = now\<rparr>;
               d2 = d1\<lparr>milestone_objects := milestone_objects d1 @ [milestone]\<rparr>;
               d3 = d2\<lparr>response_objects :=
                         copy_responses (milestone_responses d2 latest_milestone)
                           (m_id milestone) request_user (response_objects d2)\<rparr>
           in (Inr tk, d3))
      | Inr None \<Rightarrow>
          (let tk = \<lparr>t_id = next_pk (map t_id (take_objects d)), t_user = request_user,
                     t_article = vd_article validated_data,
                     t_question = vd_question validated_data\<rparr>;
               d1 = d\<lparr>take_objects := take_objects d @ [tk]\<rparr>;
               milestone = \<lparr>m_id = next_pk (map m_id (milestone_objects d1)),
                            m_user = request_user, m_take = t_id tk,
                            m_found = None, m_copied_from = None,
                            m_response_at = now\<rparr>;
               d2 = d1\<lparr>milestone_objects := milestone_objects d1 @ [milestone]\<rparr>
           in (Inr tk, d2)))"

section \<open>Referential integrity and an example database\<close>

text \<open>
  The foreign keys the database enforces: the take of every milestone and the milestone of
  every response are rows of their tables.
\<close>

definition fk_integrity :: "db \<Rightarrow> bool" where
  "fk_integrity d =
     ((\<forall>m \<in> set (milestone_objects d). m_take m \<in> set (map t_id (take_objects d))) \<and>
      (\<forall>r \<in> set (response_objects d). r_milestone r \<in> set (map m_id (milestone_objects d))))"

text \<open>
  A milestone that the resolver of the specification may return for the reference take:
  a milestone of a take with the same question on another article, itself no copy, with
  a found marker and at least one response.
\<close>

definition eligible :: "db \<Rightarrow> Take \<Rightarrow> Milestone \<Rightarrow> bool" where
  "eligible d tk m =
     (m \<in> set (milestone_objects d) \<and>
      (\<exists>t \<in> set (take_objects d).
          m_take m = t_id t \<and> t_question t = t_question tk \<and> t_article t \<noteq> t_article tk) \<and>
      m_copied_from m = None \<and> m_found m \<noteq> None \<and>
      (\<exists>r \<in> set (response_objects d). r_milestone r = m_id m))"

text \<open>
  A milestone that \<^verbatim>\<open>TakeBindMilestoneSerializer.create\<close> may copy for the validated
  data of a new take: a milestone of a take with the same question on the same article,
  itself no copy, with a found marker.
\<close>

definition create_eligible :: "db \<Rightarrow> ValidatedData \<Rightarrow> Milestone \<Rightarrow> bool" where
  "create_eligible d validated_data m =
     (m \<in> set (milestone_objects d) \<and>
      (\<exists>t \<in> set (take_objects d).
          m_take m = t_id t \<and> t_question t = vd_question validated_data \<and>
          t_article t = vd_article validated_data) \<and>
      m_copied_from m = None \<and> m_found m \<noteq> None)"

text \<open>
  Research 1 has three articles and research 2 none; article 1 has two profiles, articles
  2 and 3 one each.
  Takes 1 and 2 answer question 1 on articles 1 and 2. Milestone 4 of take 1 has a found
  marker and the latest \<open>response_at\<close>, and no response; milestone 3 has no found marker;
  milestones 2 and 5 of take 2 have the same \<open>response_at\<close>.
\<close>

definition M1 :: Milestone where
  "M1 = \<lparr>m_id = 1, m_user = 1, m_take = 1, m_found = Some 5, m_copied_from = None,
         m_response_at = 10\<rparr>"

definition M2 :: Milestone where
  "M2 = \<lparr>m_id = 2, m_user = 3, m_take = 2, m_found = Some 6, m_copied_from = None,
         m_response_at = 20\<rparr>"

definition M3 :: Milestone where
  "M3 = \<lparr>m_id = 3, m_user = 3, m_take = 2, m_found = None, m_copied_from = None,
         m_response_at = 30\<rparr>"

definition M4 :: Milestone where
  "M4 = \<lparr>m_id = 4, m_user = 1, m_take = 1, m_found = Some 7, m_copied_from = None,
         m_response_at = 40\<rparr>"

definition M5 :: Milestone where
  "M5 = \<lparr>m_id = 5, m_user = 3, m_take = 2, m_found = Some 8, m_copied_from = None,
         m_response_at = 20\<rparr>"

definition db_example :: db where
  "db_example =
     \<lparr>research_objects = [\<lparr>rs_id = 1\<rparr>, \<lparr>rs_id = 2\<rparr>],
      article_objects = [\<lparr>a_id = 1, a_research = 1\<rparr>, \<lparr>a_id = 2, a_research = 1\<rparr>,
                         \<lparr>a_id = 3, a_research = 1\<rparr>],
      sentence_objects = [\<lparr>s_id = 10, s_article = 1\<rparr>, \<lparr>s_id = 20, s_article = 2\<rparr>,
                          \<lparr>s_id = 21, s_article = 2\<rparr>],
      user_objects = [\<lparr>u_id = 1, u_username = ''ann''\<rparr>, \<lparr>u_id = 2, u_username = ''bob''\<rparr>,
                      \<lparr>u_id = 3, u_username = ''cho''\<rparr>, \<lparr>u_id = 4, u_username = ''dee''\<rparr>],
      profile_objects = [\<lparr>p_id = 1, p_user = 1, p_article = Some 1\<rparr>,
                         \<lparr>p_id = 2, p_user = 2, p_article = Some 1\<rparr>,
                         \<lparr>p_id = 3, p_user = 3, p_article = Some 2\<rparr>,
                         \<lparr>p_id = 4, p_user = 4, p_article = Some 3\<rparr>],
      take_objects = [\<lparr>t_id = 1, t_user = 1, t_article = 1, t_question = 1\<rparr>,
                      \<lparr>t_id = 2, t_user = 3, t_article = 2, t_question = 1\<rparr>],
      milestone_objects = [M1, M2, M3, M4, M5],
      response_objects = [\<lparr>r_id = 1, r_user = 1, r_take = 1, r_milestone = 1, r_sentence = 10\<rparr>,
                          \<lparr>r_id = 2, r_user = 3, r_take = 2, r_milestone = 2, r_sentence = 21\<rparr>,
                          \<lparr>r_id = 3, r_user = 3, r_take = 2, r_milestone = 2, r_sentence = 20\<rparr>,
                          \<lparr>r_id = 4, r_user = 3, r_take = 2, r_milestone = 2, r_sentence = 21\<rparr>,
                          \<lparr>r_id = 5, r_user = 3, r_take = 2, r_milestone = 3, r_sentence = 20\<rparr>,
                          \<lparr>r_id = 6, r_user = 3, r_take = 2, r_milestone = 5, r_sentence = 20\<rparr>]\<rparr>"

section \<open>Folds that keep the first extremal element\<close>

lemma latest_first_snoc:
  fixes key :: "'a \<Rightarrow> 'k::linorder"
  assumes i: "i < length l"
    and le: "\<forall>j<length l. key (l ! j) \<le> key (l ! i)"
    and lt: "\<forall>j<i. key (l ! j) < key (l ! i)"
  shows "\<exists>i'<length (l @ [y]).
           (if key (l ! i) < key y then y else l ! i) = (l @ [y]) ! i' \<and>
           (\<forall>j<length (l @ [y]). key ((l @ [y]) ! j) \<le> key ((l @ [y]) ! i')) \<and>
           (\<forall>j<i'. key ((l @ [y]) ! j) < key ((l @ [y]) ! i'))"
proof (cases "key (l ! i) < key y")
  case True
  have "\<forall>j<length l. key (l ! j) < key y"
    using le True by (meson le_less_trans)
  then show ?thesis using True
    by (intro exI[of _ "length l"]) (auto simp: nth_append less_Suc_eq)
next
  case False
  then have "key y \<le> key (l ! i)" by simp
  then show ?thesis using False i le lt
    by (intro exI[of _ i]) (auto simp: nth_append less_Suc_eq)
qed

lemma foldl_latest_first:
  fixes key :: "'a \<Rightarrow> 'k::linorder"
  shows "\<exists>i<length (x # xs).
           foldl (\<lambda>a b. if key a < key b then b else a) x xs = (x # xs) ! i \<and>
           (\<forall>j<length (x # xs). key ((x # xs) ! j) \<le> key ((x # xs) ! i)) \<and>
           (\<forall>j<i. key ((x # xs) ! j) < key ((x # xs) ! i))"
proof (induction xs rule: rev_induct)
  case Nil
  show ?case by simp
next
  case (snoc y ys)
  define l where "l = x # ys"
  from snoc obtain i where i: "i < length l" "foldl (\<lambda>a b. if key a < key b then b else a) x ys = l ! i"
    "\<forall>j<length l. key (l ! j) \<le> key (l ! i)" "\<forall>j<i. key (l ! j) < key (l ! i)"
    unfolding l_def by blast
  have app: "x # (ys @ [y]) = l @ [y]" by (simp add: l_def)
  have step: "foldl (\<lambda>a b. if key a < key b then b else a) x (ys @ [y])
      = (if key (l ! i) < key y then y else l ! i)"
    using i(2) by simp
  show ?case unfolding app step
    by (rule latest_first_snoc[OF i(1) i(3) i(4)])
qed

lemma reduce_latest_first:
  fixes key :: "'a \<Rightarrow> 'k::linorder"
  assumes "l \<noteq> []"
  shows "\<exists>i<length l.
           reduce (\<lambda>a b. if key a < key b then b else a) l = Inr (l ! i) \<and>
           (\<forall>j<length l. key (l ! j) \<le> key (l ! i)) \<and>
           (\<forall>j<i. key (l ! j) < key (l ! i))"
proof -
  from assms obtain x xs where l: "l = x # xs" by (cases l) auto
  show ?thesis unfolding l reduce.simps using foldl_latest_first[of x xs key] by blast
qed

section \<open>The latest sibling milestone\<close>

lemma set_suggestions_milestones_flatten:
  "set (suggestions_milestones_flatten d tk) = {m. eligible d tk m}"
  by (auto simp: suggestions_milestones_flatten_def eligible_def take_milestones_def
      milestone_responses_def filter_empty_conv)

text \<open>
  Claim C1. The milestones the suggestions view considers for a reference take are exactly
  those of the takes with its question on another article that are no copy, have a found
  marker and own a response. When there is none the result is None; otherwise it is the
  candidate with the greatest \<open>response_at\<close>, and among candidates with that
  \<open>response_at\<close> the one met first: every candidate before it is strictly earlier.
\<close>

theorem suggestions_latest_milestone_resolves:
  "set (suggestions_milestones_flatten d tk) = {m. eligible d tk m} \<and>
   (suggestions_milestones_flatten d tk = [] \<longrightarrow> suggestions_latest_milestone d tk = Inr None) \<and>
   (suggestions_milestones_flatten d tk \<noteq> [] \<longrightarrow>
      (\<exists>i<length (suggestions_milestones_flatten d tk).
          suggestions_latest_milestone d tk = Inr (Some (suggestions_milestones_flatten d tk ! i)) \<and>
          (\<forall>j<length (suggestions_milestones_flatten d tk).
              m_response_at (suggestions_milestones_flatten d tk ! j)
                \<le> m_response_at (suggestions_milestones_flatten d tk ! i)) \<and>
          (\<forall>j<i. m_response_at (suggestions_milestones_flatten d tk ! j)
                < m_response_at (suggestions_milestones_flatten d tk ! i))))"
proof (intro conjI impI)
  show "set (suggestions_milestones_flatten d tk) = {m. eligible d tk m}"
    by (rule set_suggestions_milestones_flatten)
next
  assume "suggestions_milestones_flatten d tk = []"
  then show "suggestions_latest_milestone d tk = Inr None"
    by (simp add: suggestions_latest_milestone_def)
next
  let ?l = "suggestions_milestones_flatten d tk"
  assume ne: "?l \<noteq> []"
  from reduce_latest_first[OF ne, of m_response_at] obtain i where
    i: "i < length ?l"
    "reduce (\<lambda>a b. if m_response_at a < m_response_at b then b else a) ?l = Inr (?l ! i)"
    "\<forall>j<length ?l. m_response_at (?l ! j) \<le> m_response_at (?l ! i)"
    "\<forall>j<i. m_response_at (?l ! j) < m_response_at (?l ! i)"
    by blast
  have "suggestions_latest_milestone d tk = Inr (Some (?l ! i))"
    using ne i(2) by (simp add: suggestions_latest_milestone_def Let_def)
  with i(1,3,4) show "\<exists>i<length ?l.
          suggestions_latest_milestone d tk = Inr (Some (?l ! i)) \<and>
          (\<forall>j<length ?l. m_response_at (?l ! j) \<le> m_response_at (?l ! i)) \<and>
          (\<forall>j<i. m_response_at (?l ! j) < m_response_at (?l ! i))"
    by blast
qed



theorem suggestions_latest_milestone_resolves_witness:
  "suggestions_milestones_flatten db_example
       \<lparr>t_id = 3, t_user = 2, t_article = 3, t_question = 1\<rparr> = [M1, M2, M5] \<and>
   m_response_at M2 = m_response_at M5 \<and>
   suggestions_latest_milestone db_example
       \<lparr>t_id = 3, t_user = 2, t_article = 3, t_question = 1\<rparr> = Inr (Some M2)"
proof -
  let ?tk = "\<lparr>t_id = 3, t_user = 2, t_article = 3, t_question = 1\<rparr>"
  have flat: "suggestions_milestones_flatten db_example ?tk = [M1, M2, M5]"
    by code_simp
  have at: "m_response_at M1 = 10" "m_response_at M2 = 20" "m_response_at M5 = 20"
    by (simp_all add: M1_def M2_def M5_def)
  have ne: "suggestions_milestones_flatten db_example ?tk \<noteq> []"
    unfolding flat by simp
  from suggestions_latest_milestone_resolves[of db_example ?tk] ne
  have "\<exists>i<length (suggestions_milestones_flatten db_example ?tk).
          suggestions_latest_milestone db_example ?tk
            = Inr (Some (suggestions_milestones_flatten db_example ?tk ! i)) \<and>
          (\<forall>j<length (suggestions_milestones_flatten db_example ?tk).
              m_response_at (suggestions_milestones_flatten db_example ?tk ! j)
                \<le> m_response_at (suggestions_milestones_flatten db_example ?tk ! i)) \<and>
          (\<forall>j<i. m_response_at (suggestions_milestones_flatten db_example ?tk ! j)
                < m_response_at (suggestions_milestones_flatten db_example ?tk ! i))"
    by blast
  then obtain i where
    i: "i < length [M1, M2, M5]"
       "suggestions_latest_milestone db_example ?tk = Inr (Some ([M1, M2, M5] ! i))"
       "\<forall>j<length [M1, M2, M5]. m_response_at ([M1, M2, M5] ! j) \<le> m_response_at ([M1, M2, M5] ! i)"
       "\<forall>j<i. m_response_at ([M1, M2, M5] ! j) < m_response_at ([M1, M2, M5] ! i)"
    unfolding flat by blast
  from i(1) consider "i = 0" | "i = 1" | "i = 2" by force
  then have "i = 1"
  proof cases
    case 1
    with i(3)[rule_format, of 1] at show ?thesis by simp
  next
    case 2
    then show ?thesis .
  next
    case 3
    with i(4)[rule_format, of 1] at show ?thesis by simp
  qed
  with i(2) flat at show ?thesis by simp
qed

lemma suggestions_latest_in_flatten:
  assumes "suggestions_latest_milestone d tk = Inr (Some m)"
  shows "m \<in> set (suggestions_milestones_flatten d tk)"
proof -
  let ?l = "suggestions_milestones_flatten d tk"
  have ne: "?l \<noteq> []"
    using assms by (auto simp: suggestions_latest_milestone_def)
  from reduce_latest_first[OF ne, of m_response_at] obtain i where
    i: "i < length ?l"
    "reduce (\<lambda>a b. if m_response_at a < m_response_at b then b else a) ?l = Inr (?l ! i)"
    by blast
  have "suggestions_latest_milestone d tk = Inr (Some (?l ! i))"
    using ne i(2) by (simp add: suggestions_latest_milestone_def Let_def)
  with assms have "m = ?l ! i" by simp
  with i(1) show ?thesis by simp
qed

text \<open>
  Claim C6. A milestone returned by the suggestions view has a found marker and is no copy,
  whatever its \<open>response_at\<close>. In the example milestone 3 (no found marker) and
  milestone 4 (no response) are later than the milestone returned.
\<close>

theorem suggestions_latest_milestone_found_not_copied:
  "suggestions_latest_milestone d tk = Inr (Some m) \<Longrightarrow>
     m_found m \<noteq> None \<and> m_copied_from m = None"
  using suggestions_latest_in_flatten[of d tk m] set_suggestions_milestones_flatten[of d tk]
  by (auto simp: eligible_def)

theorem suggestions_latest_milestone_found_not_copied_witness:
  "suggestions_latest_milestone db_example
       \<lparr>t_id = 3, t_user = 3, t_article = 2, t_question = 1\<rparr> = Inr (Some M1) \<and>
   m_found M1 \<noteq> None \<and> m_copied_from M1 = None \<and>
   m_response_at M1 < m_response_at M3 \<and> m_found M3 = None \<and>
   m_response_at M1 < m_response_at M4"
proof -
  have r: "suggestions_latest_milestone db_example
       \<lparr>t_id = 3, t_user = 3, t_article = 2, t_question = 1\<rparr> = Inr (Some M1)"
    by code_simp
  from suggestions_latest_milestone_found_not_copied[OF r] r show ?thesis
    by (simp add: M1_def M3_def M4_def)
qed

section \<open>The article with the fewest profiles\<close>

lemma fewest_first_snoc:
  fixes key :: "'a \<Rightarrow> 'k::linorder"
  assumes i: "i < length l"
    and le: "\<forall>j<length l. key (l ! i) \<le> key (l ! j)"
    and lt: "\<forall>j<i. key (l ! i) < key (l ! j)"
  shows "\<exists>i'<length (l @ [y]).
           (if key (l ! i) > key y then y else l ! i) = (l @ [y]) ! i' \<and>
           (\<forall>j<length (l @ [y]). key ((l @ [y]) ! i') \<le> key ((l @ [y]) ! j)) \<and>
           (\<forall>j<i'. key ((l @ [y]) ! i') < key ((l @ [y]) ! j))"
proof (cases "key (l ! i) > key y")
  case True
  have "\<forall>j<length l. key y < key (l ! j)"
    using le True by (meson less_le_trans)
  then show ?thesis using True
    by (intro exI[of _ "length l"]) (auto simp: nth_append less_Suc_eq)
next
  case False
  then have "key (l ! i) \<le> key y" by simp
  then show ?thesis using False i le lt
    by (intro exI[of _ i]) (auto simp: nth_append less_Suc_eq)
qed

lemma foldl_fewest_first:
  fixes key :: "'a \<Rightarrow> 'k::linorder"
  shows "\<exists>i<length (x # xs).
           foldl (\<lambda>a b. if key a > key b then b else a) x xs = (x # xs) ! i \<and>
           (\<forall>j<length (x # xs). key ((x # xs) ! i) \<le> key ((x # xs) ! j)) \<and>
           (\<forall>j<i. key ((x # xs) ! i) < key ((x # xs) ! j))"
proof (induction xs rule: rev_induct)
  case Nil
  show ?case by simp
next
  case (snoc y ys)
  define l where "l = x # ys"
  from snoc obtain i where i: "i < length l"
    "foldl (\<lambda>a b. if key a > key b then b else a) x ys = l ! i"
    "\<forall>j<length l. key (l ! i) \<le> key (l ! j)" "\<forall>j<i. key (l ! i) < key (l ! j)"
    unfolding l_def by blast
  have app: "x # (ys @ [y]) = l @ [y]" by (simp add: l_def)
  have step: "foldl (\<lambda>a b. if key a > key b then b else a) x (ys @ [y])
      = (if key (l ! i) > key y then y else l ! i)"
    using i(2) by simp
  show ?case unfolding app step
    by (rule fewest_first_snoc[OF i(1) i(3) i(4)])
qed

lemma reduce_fewest_first:
  fixes key :: "'a \<Rightarrow> 'k::linorder"
  assumes "l \<noteq> []"
  shows "\<exists>i<length l.
           reduce (\<lambda>a b. if key a > key b then b else a) l = Inr (l ! i) \<and>
           (\<forall>j<length l. key (l ! i) \<le> key (l ! j)) \<and>
           (\<forall>j<i. key (l ! i) < key (l ! j))"
proof -
  from assms obtain x xs where l: "l = x # xs" by (cases l) auto
  show ?thesis unfolding l reduce.simps using foldl_fewest_first[of x xs key] by blast
qed

text \<open>
  Claim C3. When the research has an article, the reduce of line 169 returns the article at
  an index of the queryset whose profile count is no greater than any other's and strictly
  smaller than that of every article before it: the first article with the minimal count.
\<close>

theorem target_article_fewest_profiles:
  assumes "research_articles d research \<noteq> []"
  shows "\<exists>i<length (research_articles d research).
           target_article d research = Inr (research_articles d research ! i) \<and>
           (\<forall>j<length (research_articles d research).
               length (article_profiles d (research_articles d research ! i))
                 \<le> length (article_profiles d (research_articles d research ! j))) \<and>
           (\<forall>j<i. length (article_profiles d (research_articles d research ! i))
                 < length (article_profiles d (research_articles d research ! j)))"
  using reduce_fewest_first[OF assms, of "\<lambda>a. length (article_profiles d a)"]
  by (simp add: target_article_def)

theorem target_article_fewest_profiles_witness:
  "research_articles db_example [\<lparr>rs_id = 1\<rparr>]
     = [\<lparr>a_id = 1, a_research = 1\<rparr>, \<lparr>a_id = 2, a_research = 1\<rparr>, \<lparr>a_id = 3, a_research = 1\<rparr>] \<and>
   length (article_profiles db_example \<lparr>a_id = 1, a_research = 1\<rparr>) = 2 \<and>
   length (article_profiles db_example \<lparr>a_id = 2, a_research = 1\<rparr>) = 1 \<and>
   length (article_profiles db_example \<lparr>a_id = 3, a_research = 1\<rparr>) = 1 \<and>
   target_article db_example [\<lparr>rs_id = 1\<rparr>] = Inr \<lparr>a_id = 2, a_research = 1\<rparr>"
proof -
  let ?A1 = "\<lparr>a_id = 1, a_research = 1\<rparr>"
  let ?A2 = "\<lparr>a_id = 2, a_research = 1\<rparr>"
  let ?A3 = "\<lparr>a_id = 3, a_research = 1\<rparr>"
  let ?l = "research_articles db_example [\<lparr>rs_id = 1\<rparr>]"
  have arts: "?l = [?A1, ?A2, ?A3]"
    by code_simp
  have c: "length (article_profiles db_example ?A1) = 2"
    "length (article_profiles db_example ?A2) = 1"
    "length (article_profiles db_example ?A3) = 1"
    by code_simp+
  have ne: "?l \<noteq> []" unfolding arts by simp
  from target_article_fewest_profiles[OF ne] obtain i where
    i: "i < length [?A1, ?A2, ?A3]"
       "target_article db_example [\<lparr>rs_id = 1\<rparr>] = Inr ([?A1, ?A2, ?A3] ! i)"
       "\<forall>j<length [?A1, ?A2, ?A3].
           length (article_profiles db_example ([?A1, ?A2, ?A3] ! i))
             \<le> length (article_profiles db_example ([?A1, ?A2, ?A3] ! j))"
       "\<forall>j<i. length (article_profiles db_example ([?A1, ?A2, ?A3] ! i))
             < length (article_profiles db_example ([?A1, ?A2, ?A3] ! j))"
    unfolding arts by blast
  from i(1) consider "i = 0" | "i = 1" | "i = 2" by force
  then have "i = 1"
  proof cases
    case 1
    with i(3)[rule_format, of 1] c show ?thesis by simp
  next
    case 2
    then show ?thesis .
  next
    case 3
    with i(4)[rule_format, of 1] c show ?thesis by simp
  qed
  with i(2) arts c show ?thesis by simp
qed

lemma article_profiles_new_profile:
  "p_article p = None \<Longrightarrow>
   article_profiles (d\<lparr>user_objects := us, profile_objects := profile_objects d @ [p]\<rparr>) a
     = article_profiles d a"
  by (simp add: article_profiles_def)

lemma research_articles_new_profile:
  "research_articles (d\<lparr>user_objects := us, profile_objects := ps\<rparr>) research
     = research_articles d research"
  by (simp add: research_articles_def)

lemma target_article_new_profile:
  "p_article p = None \<Longrightarrow>
   target_article (d\<lparr>user_objects := us, profile_objects := profile_objects d @ [p]\<rparr>) research
     = target_article d research"
  by (simp add: target_article_def article_profiles_new_profile research_articles_new_profile)

lemma user_create_no_articles:
  assumes "research_articles d research = []"
    and "research = filter (\<lambda>r. Some (rs_id r) = ud_research data) (research_objects d)"
    and "research \<noteq> []"
    and "ud_username data \<notin> set (map u_username (user_objects d))"
  shows "fst (user_create d data) = Inl TypeError"
proof -
  let ?instance = "\<lparr>u_id = next_pk (map u_id (user_objects d)), u_username = ud_username data\<rparr>"
  let ?profile = "\<lparr>p_id = next_pk (map p_id (profile_objects d)), p_user = u_id ?instance,
                    p_article = None\<rparr>"
  let ?d1 = "d\<lparr>user_objects := user_objects d @ [?instance],
                 profile_objects := profile_objects d @ [?profile]\<rparr>"
  have some: "ud_research data \<noteq> None"
    using assms(2,3) by (metis (mono_tags, lifting) filter_False option.distinct(1))
  have t: "target_article ?d1 research = target_article d research"
    by (rule target_article_new_profile) simp
  have e: "target_article d research = Inl TypeError"
    using assms(1) by (simp add: target_article_def)
  show ?thesis
    using assms(3,4) some
    unfolding user_create_def Let_def assms(2)[symmetric] t e
    by auto
qed

text \<open>
  Claim C9. On a research with no article the reduce has an empty sequence and no initial
  value: Python raises TypeError (the empty-collection error of the specification), which
  nothing in the view catches, so the request for a new user of such a research fails with
  it.
\<close>

theorem target_article_no_articles:
  assumes "research_articles d research = []"
  shows "target_article d research = Inl TypeError \<and>
     (research = filter (\<lambda>r. Some (rs_id r) = ud_research data) (research_objects d) \<and>
      research \<noteq> [] \<and> ud_username data \<notin> set (map u_username (user_objects d))
      \<longrightarrow> fst (user_create d data) = Inl TypeError)"
proof (intro conjI impI)
  show "target_article d research = Inl TypeError"
    using assms by (simp add: target_article_def)
next
  assume a: "research = filter (\<lambda>r. Some (rs_id r) = ud_research data) (research_objects d) \<and>
      research \<noteq> [] \<and> ud_username data \<notin> set (map u_username (user_objects d))"
  show "fst (user_create d data) = Inl TypeError"
    by (rule user_create_no_articles[OF assms]) (use a in blast)+
qed

theorem target_article_no_articles_witness:
  "research_articles db_example [\<lparr>rs_id = 2\<rparr>] = [] \<and>
   target_article db_example [\<lparr>rs_id = 2\<rparr>] = Inl TypeError \<and>
   fst (user_create db_example \<lparr>ud_research = Some 2, ud_username = ''eve''\<rparr>) = Inl TypeError"
proof -
  let ?data = "\<lparr>ud_research = Some 2, ud_username = ''eve''\<rparr>"
  have e: "research_articles db_example [\<lparr>rs_id = 2\<rparr>] = []"
    by code_simp
  have r: "[\<lparr>rs_id = 2\<rparr>]
      = filter (\<lambda>r. Some (rs_id r) = ud_research ?data) (research_objects db_example)"
    by code_simp
  have n: "ud_username ?data \<notin> set (map u_username (user_objects db_example))"
    by code_simp
  have ne: "[\<lparr>rs_id = 2\<rparr>] \<noteq> []"
    by simp
  from target_article_no_articles[OF e, of ?data] r n ne e show ?thesis
    by blast
qed

text \<open>
  Claim C10. A request whose research is absent, or names no row of Research, is answered
  with the 400 response and leaves the database as it was. Whenever the view returns a
  user, the article with the fewest profiles was computed and a profile of that user is
  assigned to it.
\<close>

theorem user_create_requires_research:
  "(ud_research data = None \<or>
      (\<forall>r \<in> set (research_objects d). Some (rs_id r) \<noteq> ud_research data)
    \<longrightarrow> user_create d data = (Inl BadRequest, d)) \<and>
   (\<forall>u d'. user_create d data = (Inr u, d') \<longrightarrow>
      (\<exists>a. target_article d
              (filter (\<lambda>r. Some (rs_id r) = ud_research data) (research_objects d)) = Inr a \<and>
           u \<in> set (user_objects d') \<and>
           (\<exists>p \<in> set (profile_objects d'). p_user p = u_id u \<and> p_article p = Some (a_id a))))"
proof (intro conjI impI allI)
  assume "ud_research data = None \<or>
      (\<forall>r \<in> set (research_objects d). Some (rs_id r) \<noteq> ud_research data)"
  then have "filter (\<lambda>r. Some (rs_id r) = ud_research data) (research_objects d) = []"
    by (auto simp: filter_empty_conv)
  then show "user_create d data = (Inl BadRequest, d)"
    by (simp add: user_create_def)
next
  fix u d'
  assume ok: "user_create d data = (Inr u, d')"
  let ?research = "filter (\<lambda>r. Some (rs_id r) = ud_research data) (research_objects d)"
  let ?instance = "\<lparr>u_id = next_pk (map u_id (user_objects d)), u_username = ud_username data\<rparr>"
  let ?profile = "\<lparr>p_id = next_pk (map p_id (profile_objects d)), p_user = u_id ?instance,
                    p_article = None\<rparr>"
  let ?d1 = "d\<lparr>user_objects := user_objects d @ [?instance],
                 profile_objects := profile_objects d @ [?profile]\<rparr>"
  from ok have ne: "?research \<noteq> []"
    by (auto simp: user_create_def Let_def split: if_splits)
  then have some: "ud_research data \<noteq> None"
    by (metis (mono_tags, lifting) filter_False option.distinct(1))
  have t: "target_article ?d1 ?research = target_article d ?research"
    by (rule target_article_new_profile) simp
  from ok ne some obtain a where a: "target_article d ?research = Inr a"
    and u: "u = ?instance"
    and d': "d' = ?d1\<lparr>profile_objects :=
                map (\<lambda>p. if p_id p = p_id ?profile
                          then p\<lparr>p_article := Some (a_id a), p_user := u_id ?instance\<rparr>
                          else p)
                  (profile_objects ?d1)\<rparr>"
    unfolding user_create_def Let_def t
    by (auto split: if_splits sum.splits)
  have "u \<in> set (user_objects d')" using u d' by simp
  moreover have "?profile\<lparr>p_article := Some (a_id a), p_user := u_id ?instance\<rparr>
      \<in> set (profile_objects d')"
    unfolding d' by (simp add: image_iff)
  then have "\<exists>p \<in> set (profile_objects d'). p_user p = u_id u \<and> p_article p = Some (a_id a)"
    using u by (intro bexI[of _ "?profile\<lparr>p_article := Some (a_id a), p_user := u_id ?instance\<rparr>"]) simp_all
  ultimately show "\<exists>a. target_article d ?research = Inr a \<and> u \<in> set (user_objects d') \<and>
           (\<exists>p \<in> set (profile_objects d'). p_user p = u_id u \<and> p_article p = Some (a_id a))"
    using a by blast
qed


theorem user_create_requires_research_witness:
  "ud_research \<lparr>ud_research = None, ud_username = ''eve''\<rparr> = None \<and>
   user_create db_example \<lparr>ud_research = None, ud_username = ''eve''\<rparr>
     = (Inl BadRequest, db_example) \<and>
   user_create db_example \<lparr>ud_research = Some 7, ud_username = ''eve''\<rparr>
     = (Inl BadRequest, db_example) \<and>
   fst (user_create db_example \<lparr>ud_research = Some 1, ud_username = ''eve''\<rparr>)
     = Inr \<lparr>u_id = 5, u_username = ''eve''\<rparr> \<and>
   target_article db_example [\<lparr>rs_id = 1\<rparr>] = Inr \<lparr>a_id = 2, a_research = 1\<rparr> \<and>
   (\<exists>p. p \<in> set (profile_objects
                 (snd (user_create db_example \<lparr>ud_research = Some 1, ud_username = ''eve''\<rparr>))) \<and>
        p_user p = 5 \<and> p_article p = Some 2)"
proof -
  let ?none = "\<lparr>ud_research = None, ud_username = ''eve''\<rparr>"
  let ?seven = "\<lparr>ud_research = Some 7, ud_username = ''eve''\<rparr>"
  let ?one = "\<lparr>ud_research = Some 1, ud_username = ''eve''\<rparr>"
  let ?eve = "\<lparr>u_id = 5, u_username = ''eve''\<rparr>"
  have n: "ud_research ?none = None" by simp
  have a: "user_create db_example ?none = (Inl BadRequest, db_example)"
    using user_create_requires_research[of ?none db_example] n by blast
  have "\<forall>r \<in> set (research_objects db_example). Some (rs_id r) \<noteq> ud_research ?seven"
    by code_simp
  then have b: "user_create db_example ?seven = (Inl BadRequest, db_example)"
    using user_create_requires_research[of ?seven db_example] by blast
  have f: "fst (user_create db_example ?one) = Inr ?eve"
    by code_simp
  then have ok: "user_create db_example ?one = (Inr ?eve, snd (user_create db_example ?one))"
    by (metis prod.collapse)
  have r: "filter (\<lambda>r. Some (rs_id r) = ud_research ?one) (research_objects db_example)
      = [\<lparr>rs_id = 1\<rparr>]"
    by code_simp
  have t: "target_article db_example [\<lparr>rs_id = 1\<rparr>] = Inr \<lparr>a_id = 2, a_research = 1\<rparr>"
    by code_simp
  from user_create_requires_research[of ?one db_example] ok
  have "\<exists>a. target_article db_example
              (filter (\<lambda>r. Some (rs_id r) = ud_research ?one) (research_objects db_example))
                = Inr a \<and>
           ?eve \<in> set (user_objects (snd (user_create db_example ?one))) \<and>
           (\<exists>p \<in> set (profile_objects (snd (user_create db_example ?one))).
               p_user p = u_id ?eve \<and> p_article p = Some (a_id a))"
    by blast
  then have "\<exists>p. p \<in> set (profile_objects (snd (user_create db_example ?one))) \<and>
        p_user p = 5 \<and> p_article p = Some 2"
    unfolding r t by auto
  with n a b f t show ?thesis by blast
qed

section \<open>Fresh primary keys\<close>

lemma foldr_max_ge: "i \<in> set ids \<Longrightarrow> i \<le> foldr max ids (0::nat)"
  by (induction ids) auto

lemma next_pk_greater: "i \<in> set ids \<Longrightarrow> i < next_pk ids"
  using foldr_max_ge[of i ids] by (simp add: next_pk_def)

lemma next_pk_fresh: "next_pk ids \<notin> set ids"
  using next_pk_greater[of "next_pk ids" ids] by auto

section \<open>Renewing a milestone: the responses saved\<close>

lemma save_responses_appends:
  "\<exists>news. save_responses items u tbl = tbl @ news \<and>
          map r_take news = map fst items \<and>
          map r_milestone news = map (\<lambda>x. fst (snd x)) items \<and>
          map r_sentence news = map (\<lambda>x. snd (snd x)) items \<and>
          (\<forall>r \<in> set news. r_user r = u) \<and>
          (\<forall>r \<in> set news. \<forall>i \<in> set (map r_id tbl). i < r_id r) \<and>
          distinct (map r_id news)"
proof (induction items arbitrary: tbl)
  case Nil
  show ?case by simp
next
  case (Cons item items)
  obtain t m s where item: "item = (t, m, s)" by (cases item) auto
  define r0 where "r0 = \<lparr>r_id = next_pk (map r_id tbl), r_user = u, r_take = t,
                r_milestone = m, r_sentence = s\<rparr>"
  from Cons[of "tbl @ [r0]"] obtain news where
    n: "save_responses items u (tbl @ [r0]) = (tbl @ [r0]) @ news"
      "map r_take news = map fst items"
      "map r_milestone news = map (\<lambda>x. fst (snd x)) items"
      "map r_sentence news = map (\<lambda>x. snd (snd x)) items"
      "\<forall>r \<in> set news. r_user r = u"
      "\<forall>r \<in> set news. \<forall>i \<in> set (map r_id (tbl @ [r0])). i < r_id r"
      "distinct (map r_id news)"
    by blast
  have r0_gt: "\<forall>i \<in> set (map r_id tbl). i < r_id r0"
    using next_pk_greater[of _ "map r_id tbl"] by (simp add: r0_def)
  have r0_new: "r_id r0 \<notin> set (map r_id news)"
    using n(6) by fastforce
  have "save_responses (item # items) u tbl = tbl @ (r0 # news)"
    using n(1) by (simp add: item r0_def)
  moreover have "map r_take (r0 # news) = map fst (item # items)"
    using n(2) by (simp add: item r0_def)
  moreover have "map r_milestone (r0 # news) = map (\<lambda>x. fst (snd x)) (item # items)"
    using n(3) by (simp add: item r0_def)
  moreover have "map r_sentence (r0 # news) = map (\<lambda>x. snd (snd x)) (item # items)"
    using n(4) by (simp add: item r0_def)
  moreover have "\<forall>r \<in> set (r0 # news). r_user r = u"
    using n(5) by (simp add: r0_def)
  moreover have "\<forall>r \<in> set (r0 # news). \<forall>i \<in> set (map r_id tbl). i < r_id r"
    using n(6) r0_gt by auto
  moreover have "distinct (map r_id (r0 # news))"
    using n(7) r0_new by simp
  ultimately show ?case by blast
qed

lemma get_object_Inr:
  "get_object queryset k = Inr tk \<Longrightarrow> tk \<in> set queryset \<and> t_id tk = k"
proof -
  assume a: "get_object queryset k = Inr tk"
  then obtain rest where "filter (\<lambda>t. t_id t = k) queryset = tk # rest"
    by (auto simp: get_object_def split: list.splits)
  then have "tk \<in> set (filter (\<lambda>t. t_id t = k) queryset)" by simp
  then show ?thesis by simp
qed


lemma renew_milestone_success:
  assumes g: "get_object (take_objects d) k = Inr tk"
    and v: "milestone_is_valid d (t_id tk) data"
    and s: "sentences = (case rd_sentences data of None \<Rightarrow> [] | Some s \<Rightarrow> s)"
    and e: "\<forall>s \<in> set sentences. s \<in> set (map s_id (sentence_objects d))"
  shows "\<exists>news.
     renew_milestone d request_user k data now =
       (Inr (\<lparr>m_id = next_pk (map m_id (milestone_objects d)), m_user = request_user,
              m_take = t_id tk, m_found = rd_found data,
              m_copied_from = rd_copied_from data, m_response_at = now\<rparr>,
             filter (\<lambda>r. r_milestone r = next_pk (map m_id (milestone_objects d)))
               (response_objects d @ news)),
        d\<lparr>milestone_objects := milestone_objects d @
               [\<lparr>m_id = next_pk (map m_id (milestone_objects d)), m_user = request_user,
                 m_take = t_id tk, m_found = rd_found data,
                 m_copied_from = rd_copied_from data, m_response_at = now\<rparr>],
           response_objects := response_objects d @ news\<rparr>) \<and>
     map r_sentence news = sentences \<and>
     (\<forall>r \<in> set news. r_milestone r = next_pk (map m_id (milestone_objects d))) \<and>
     (\<forall>r \<in> set news. r_take r = t_id tk) \<and>
     (\<forall>r \<in> set news. r_user r = request_user) \<and>
     (\<forall>r \<in> set news. r_id r \<notin> set (map r_id (response_objects d))) \<and>
     distinct (map r_id news)"
proof -
  define mid where "mid = next_pk (map m_id (milestone_objects d))"
  define milestone where "milestone = \<lparr>m_id = mid, m_user = request_user,
              m_take = t_id tk, m_found = rd_found data,
              m_copied_from = rd_copied_from data, m_response_at = now\<rparr>"
  define d1 where "d1 = d\<lparr>milestone_objects := milestone_objects d @ [milestone]\<rparr>"
  define form where "form = map (\<lambda>sentence_id. (t_id tk, mid, sentence_id)) sentences"
  have tk: "t_id tk \<in> set (map t_id (take_objects d))"
    using get_object_Inr[OF g] by auto
  have valid: "list_all (response_is_valid d1) form"
    using tk e by (auto simp: list_all_iff form_def response_is_valid_def d1_def milestone_def)
  from save_responses_appends[of form request_user "response_objects d"] obtain news where
    n: "save_responses form request_user (response_objects d) = response_objects d @ news"
      "map r_take news = map fst form"
      "map r_milestone news = map (\<lambda>x. fst (snd x)) form"
      "map r_sentence news = map (\<lambda>x. snd (snd x)) form"
      "\<forall>r \<in> set news. r_user r = request_user"
      "\<forall>r \<in> set news. \<forall>i \<in> set (map r_id (response_objects d)). i < r_id r"
      "distinct (map r_id news)"
    by blast
  have sent: "map r_sentence news = sentences"
    using n(4) by (simp add: form_def comp_def)
  have "map r_milestone news = map (\<lambda>_. mid) sentences"
    using n(3) by (simp add: form_def comp_def)
  then have "set (map r_milestone news) \<subseteq> {mid}"
    by auto
  then have ms: "\<forall>r \<in> set news. r_milestone r = mid"
    by auto
  have "map r_take news = map (\<lambda>_. t_id tk) sentences"
    using n(2) by (simp add: form_def comp_def)
  then have "set (map r_take news) \<subseteq> {t_id tk}"
    by auto
  then have ts: "\<forall>r \<in> set news. r_take r = t_id tk"
    by auto
  have fresh: "\<forall>r \<in> set news. r_id r \<notin> set (map r_id (response_objects d))"
    using n(6) by fastforce
  have "renew_milestone d request_user k data now =
       (Inr (milestone, filter (\<lambda>r. r_milestone r = mid) (response_objects d @ news)),
        d\<lparr>milestone_objects := milestone_objects d @ [milestone],
           response_objects := response_objects d @ news\<rparr>)"
    using v valid[unfolded form_def d1_def] n(1)[unfolded form_def]
    unfolding renew_milestone_def g s[symmetric] Let_def mid_def[symmetric]
    by (simp add: milestone_responses_def milestone_def)
  then show ?thesis
    using sent ms ts n(5) fresh n(7)
    unfolding milestone_def mid_def by blast
qed


lemma renew_milestone_unknown_sentence:
  assumes g: "get_object (take_objects d) k = Inr tk"
    and v: "milestone_is_valid d (t_id tk) data"
    and s: "sentences = (case rd_sentences data of None \<Rightarrow> [] | Some s \<Rightarrow> s)"
    and e: "\<exists>x \<in> set sentences. x \<notin> set (map s_id (sentence_objects d))"
  shows "fst (renew_milestone d request_user k data now) = Inl ValidationError"
proof -
  from e obtain x where x: "x \<in> set sentences" "x \<notin> set (map s_id (sentence_objects d))"
    by blast
  define mid where "mid = next_pk (map m_id (milestone_objects d))"
  define d1 where "d1 = d\<lparr>milestone_objects := milestone_objects d @
       [\<lparr>m_id = mid, m_user = request_user, m_take = t_id tk, m_found = rd_found data,
         m_copied_from = rd_copied_from data, m_response_at = now\<rparr>]\<rparr>"
  have "\<not> response_is_valid d1 (t_id tk, mid, x)"
    using x(2) by (simp add: response_is_valid_def d1_def)
  then have "\<not> list_all (response_is_valid d1)
      (map (\<lambda>sentence_id. (t_id tk, mid, sentence_id)) sentences)"
    using x(1) by (auto simp: list_all_iff)
  then show ?thesis
    using v
    unfolding renew_milestone_def g s[symmetric] Let_def mid_def[symmetric] d1_def
    by simp
qed

text \<open>
  Claim C7. For a take that exists and sentence ids that name rows of Sentence, the view
  succeeds; the responses of the new milestone are exactly the rows it appended to the
  table, one per element of the sequence in its order, duplicates kept, each linked to the
  new milestone and the acting user. The empty sequence is such a sequence: the milestone
  is created with no response.
\<close>

theorem renew_milestone_one_response_per_sentence:
  assumes "fk_integrity d"
    and "get_object (take_objects d) k = Inr tk"
    and "milestone_is_valid d (t_id tk) data"
    and "sentences = (case rd_sentences data of None \<Rightarrow> [] | Some s \<Rightarrow> s)"
    and "\<forall>s \<in> set sentences. s \<in> set (map s_id (sentence_objects d))"
  shows "\<exists>m rs d'. renew_milestone d request_user k data now = (Inr (m, rs), d') \<and>
      m \<in> set (milestone_objects d') \<and> m_take m = t_id tk \<and> m_user m = request_user \<and>
      milestone_responses d' m = rs \<and>
      response_objects d' = response_objects d @ rs \<and>
      map r_sentence rs = sentences \<and> length rs = length sentences \<and>
      (\<forall>r \<in> set rs. r_milestone r = m_id m \<and> r_user r = request_user)"
proof -
  define mid where "mid = next_pk (map m_id (milestone_objects d))"
  define m where "m = \<lparr>m_id = mid, m_user = request_user, m_take = t_id tk,
      m_found = rd_found data, m_copied_from = rd_copied_from data, m_response_at = now\<rparr>"
  from renew_milestone_success[OF assms(2-5), of request_user now] obtain news where
    n: "renew_milestone d request_user k data now =
         (Inr (m, filter (\<lambda>r. r_milestone r = mid) (response_objects d @ news)),
          d\<lparr>milestone_objects := milestone_objects d @ [m],
             response_objects := response_objects d @ news\<rparr>)"
      "map r_sentence news = sentences"
      "\<forall>r \<in> set news. r_milestone r = mid"
      "\<forall>r \<in> set news. r_user r = request_user"
    unfolding m_def mid_def by blast
  have "mid \<notin> set (map m_id (milestone_objects d))"
    unfolding mid_def by (rule next_pk_fresh)
  moreover have "\<forall>r \<in> set (response_objects d).
      r_milestone r \<in> set (map m_id (milestone_objects d))"
    using assms(1) unfolding fk_integrity_def by (rule conjunct2)
  ultimately have "\<forall>r \<in> set (response_objects d). r_milestone r \<noteq> mid"
    by blast
  then have old: "filter (\<lambda>r. r_milestone r = mid) (response_objects d) = []"
    by (simp add: filter_empty_conv)
  have new: "filter (\<lambda>r. r_milestone r = mid) news = news"
    using n(3) by (simp add: filter_id_conv)
  let ?d' = "d\<lparr>milestone_objects := milestone_objects d @ [m],
             response_objects := response_objects d @ news\<rparr>"
  have r: "renew_milestone d request_user k data now = (Inr (m, news), ?d')"
    using n(1) old new by simp
  have mr: "milestone_responses ?d' m = news"
    using old new by (simp add: milestone_responses_def m_def)
  have len: "length news = length sentences"
    using n(2) by (metis length_map)
  have "m \<in> set (milestone_objects ?d')" by simp
  moreover have "m_take m = t_id tk" "m_user m = request_user" "m_id m = mid"
    by (simp_all add: m_def)
  moreover have "response_objects ?d' = response_objects d @ news" by simp
  ultimately show ?thesis
    using r mr len n(2,3,4) by blast
qed

text \<open>
  Claim C8, as the code has it. The response serializer checks that each sentence id names
  a row of Sentence and never reads the article of that row: the view fails with
  ValidationError when some id names no row, and succeeds when every id names a row,
  whatever the article of the sentence.
\<close>

theorem renew_milestone_validates_existence:
  assumes "get_object (take_objects d) k = Inr tk"
    and "milestone_is_valid d (t_id tk) data"
    and "sentences = (case rd_sentences data of None \<Rightarrow> [] | Some s \<Rightarrow> s)"
  shows "((\<exists>x \<in> set sentences. x \<notin> set (map s_id (sentence_objects d)))
            \<longrightarrow> fst (renew_milestone d request_user k data now) = Inl ValidationError) \<and>
         ((\<forall>x \<in> set sentences. x \<in> set (map s_id (sentence_objects d)))
            \<longrightarrow> (\<exists>m rs. fst (renew_milestone d request_user k data now) = Inr (m, rs)))"
proof (intro conjI impI)
  assume "\<exists>x \<in> set sentences. x \<notin> set (map s_id (sentence_objects d))"
  then show "fst (renew_milestone d request_user k data now) = Inl ValidationError"
    by (rule renew_milestone_unknown_sentence[OF assms])
next
  assume e: "\<forall>x \<in> set sentences. x \<in> set (map s_id (sentence_objects d))"
  from renew_milestone_success[OF assms e, of request_user now] obtain m rs d' where
    "renew_milestone d request_user k data now = (Inr (m, rs), d')"
    by blast
  then have "fst (renew_milestone d request_user k data now) = Inr (m, rs)"
    by simp
  then show "\<exists>m rs. fst (renew_milestone d request_user k data now) = Inr (m, rs)"
    by blast
qed


theorem renew_milestone_one_response_per_sentence_witness:
  "fk_integrity db_example \<and>
   (\<exists>m rs d'.
      renew_milestone db_example 1 1
        \<lparr>rd_sentences = Some [20, 20, 10], rd_found = None, rd_copied_from = None\<rparr> 50
        = (Inr (m, rs), d') \<and>
      milestone_responses d' m = rs \<and> map r_sentence rs = [20, 20, 10] \<and> length rs = 3) \<and>
   (\<exists>m d'.
      renew_milestone db_example 1 1
        \<lparr>rd_sentences = Some [], rd_found = None, rd_copied_from = None\<rparr> 50
        = (Inr (m, []), d') \<and>
      milestone_responses d' m = [])"
proof -
  let ?tk = "\<lparr>t_id = 1, t_user = 1, t_article = 1, t_question = 1\<rparr>"
  let ?three = "\<lparr>rd_sentences = Some [20, 20, 10], rd_found = None, rd_copied_from = None\<rparr>"
  let ?none = "\<lparr>rd_sentences = Some [], rd_found = None, rd_copied_from = None\<rparr>"
  have fk: "fk_integrity db_example"
    by code_simp
  have g: "get_object (take_objects db_example) 1 = Inr ?tk"
    by code_simp
  have v3: "milestone_is_valid db_example (t_id ?tk) ?three"
    by code_simp
  have v0: "milestone_is_valid db_example (t_id ?tk) ?none"
    by code_simp
  have s3: "[20, 20, 10] = (case rd_sentences ?three of None \<Rightarrow> [] | Some s \<Rightarrow> s)"
    by simp
  have s0: "[] = (case rd_sentences ?none of None \<Rightarrow> [] | Some s \<Rightarrow> s)"
    by simp
  have e3: "\<forall>s \<in> set [20, 20, 10]. s \<in> set (map s_id (sentence_objects db_example))"
    by code_simp
  have e0: "\<forall>s \<in> set []. s \<in> set (map s_id (sentence_objects db_example))"
    by simp
  from renew_milestone_one_response_per_sentence[OF fk g v3 s3 e3, of 1 50]
  have a: "\<exists>m rs d'. renew_milestone db_example 1 1 ?three 50 = (Inr (m, rs), d') \<and>
      milestone_responses d' m = rs \<and> map r_sentence rs = [20, 20, 10] \<and> length rs = 3"
    by auto
  from renew_milestone_one_response_per_sentence[OF fk g v0 s0 e0, of 1 50]
  have b: "\<exists>m d'. renew_milestone db_example 1 1 ?none 50 = (Inr (m, []), d') \<and>
      milestone_responses d' m = []"
    by auto
  from fk a b show ?thesis by blast
qed

text \<open>
  Claim C8 as stated fails: take 1 is on article 1, sentence 20 exists only on article 2,
  and renewing take 1 with sentence 20 succeeds.
\<close>

theorem renew_milestone_other_article_counterexample:
  "get_object (take_objects db_example) 1
     = Inr \<lparr>t_id = 1, t_user = 1, t_article = 1, t_question = 1\<rparr> \<and>
   filter (\<lambda>s. s_id s = 20) (sentence_objects db_example) = [\<lparr>s_id = 20, s_article = 2\<rparr>] \<and>
   fst (renew_milestone db_example 1 1
          \<lparr>rd_sentences = Some [20], rd_found = None, rd_copied_from = None\<rparr> 50)
     = Inr (\<lparr>m_id = 6, m_user = 1, m_take = 1, m_found = None, m_copied_from = None,
              m_response_at = 50\<rparr>,
            [\<lparr>r_id = 7, r_user = 1, r_take = 1, r_milestone = 6, r_sentence = 20\<rparr>]) \<and>
   fst (renew_milestone db_example 1 1
          \<lparr>rd_sentences = Some [20], rd_found = None, rd_copied_from = None\<rparr> 50)
     \<noteq> Inl ValidationError"
proof -
  have g: "get_object (take_objects db_example) 1
     = Inr \<lparr>t_id = 1, t_user = 1, t_article = 1, t_question = 1\<rparr>"
    by code_simp
  have f: "filter (\<lambda>s. s_id s = 20) (sentence_objects db_example)
     = [\<lparr>s_id = 20, s_article = 2\<rparr>]"
    by code_simp
  have r: "fst (renew_milestone db_example 1 1
          \<lparr>rd_sentences = Some [20], rd_found = None, rd_copied_from = None\<rparr> 50)
     = Inr (\<lparr>m_id = 6, m_user = 1, m_take = 1, m_found = None, m_copied_from = None,
              m_response_at = 50\<rparr>,
            [\<lparr>r_id = 7, r_user = 1, r_take = 1, r_milestone = 6, r_sentence = 20\<rparr>])"
    by code_simp
  from g f r show ?thesis by simp
qed

theorem renew_milestone_validates_existence_witness:
  "fst (renew_milestone db_example 1 1
          \<lparr>rd_sentences = Some [20, 99], rd_found = None, rd_copied_from = None\<rparr> 50)
     = Inl ValidationError \<and>
   (\<exists>m rs. fst (renew_milestone db_example 1 1
          \<lparr>rd_sentences = Some [20, 10], rd_found = None, rd_copied_from = None\<rparr> 50)
     = Inr (m, rs))"
proof -
  let ?tk = "\<lparr>t_id = 1, t_user = 1, t_article = 1, t_question = 1\<rparr>"
  let ?bad = "\<lparr>rd_sentences = Some [20, 99], rd_found = None, rd_copied_from = None\<rparr>"
  let ?good = "\<lparr>rd_sentences = Some [20, 10], rd_found = None, rd_copied_from = None\<rparr>"
  have g: "get_object (take_objects db_example) 1 = Inr ?tk"
    by code_simp
  have vb: "milestone_is_valid db_example (t_id ?tk) ?bad"
    by code_simp
  have vg: "milestone_is_valid db_example (t_id ?tk) ?good"
    by code_simp
  have sb: "[20, 99] = (case rd_sentences ?bad of None \<Rightarrow> [] | Some s \<Rightarrow> s)"
    by simp
  have sg: "[20, 10] = (case rd_sentences ?good of None \<Rightarrow> [] | Some s \<Rightarrow> s)"
    by simp
  have eb: "\<exists>x \<in> set [20, 99]. x \<notin> set (map s_id (sentence_objects db_example))"
    by code_simp
  have eg: "\<forall>x \<in> set [20, 10]. x \<in> set (map s_id (sentence_objects db_example))"
    by code_simp
  from renew_milestone_validates_existence[OF g vb sb, of 1 50] eb
  have a: "fst (renew_milestone db_example 1 1 ?bad 50) = Inl ValidationError"
    by blast
  from renew_milestone_validates_existence[OF g vg sg, of 1 50] eg
  have b: "\<exists>m rs. fst (renew_milestone db_example 1 1 ?good 50) = Inr (m, rs)"
    by blast
  from a b show ?thesis by blast
qed

section \<open>Creating a take: the milestone copied\<close>

lemma copy_responses_appends:
  "\<exists>news. copy_responses rs mid u tbl = tbl @ news \<and>
          map r_sentence news = map r_sentence rs \<and>
          map r_take news = map r_take rs \<and>
          (\<forall>r \<in> set news. r_milestone r = mid) \<and>
          (\<forall>r \<in> set news. r_user r = u) \<and>
          (\<forall>r \<in> set news. \<forall>i \<in> set (map r_id tbl). i < r_id r) \<and>
          distinct (map r_id news)"
proof (induction rs arbitrary: tbl)
  case Nil
  show ?case by simp
next
  case (Cons response rest)
  define r0 where "r0 = response\<lparr>r_id := next_pk (map r_id tbl), r_milestone := mid,
                       r_user := u\<rparr>"
  from Cons[of "tbl @ [r0]"] obtain news where
    n: "copy_responses rest mid u (tbl @ [r0]) = (tbl @ [r0]) @ news"
      "map r_sentence news = map r_sentence rest"
      "map r_take news = map r_take rest"
      "\<forall>r \<in> set news. r_milestone r = mid"
      "\<forall>r \<in> set news. r_user r = u"
      "\<forall>r \<in> set news. \<forall>i \<in> set (map r_id (tbl @ [r0])). i < r_id r"
      "distinct (map r_id news)"
    by blast
  have r0_gt: "\<forall>i \<in> set (map r_id tbl). i < r_id r0"
    using next_pk_greater[of _ "map r_id tbl"] by (simp add: r0_def)
  have r0_new: "r_id r0 \<notin> set (map r_id news)"
    using n(6) by fastforce
  have "copy_responses (response # rest) mid u tbl = tbl @ (r0 # news)"
    using n(1) by (simp add: r0_def)
  moreover have "map r_sentence (r0 # news) = map r_sentence (response # rest)"
    using n(2) by (simp add: r0_def)
  moreover have "map r_take (r0 # news) = map r_take (response # rest)"
    using n(3) by (simp add: r0_def)
  moreover have "\<forall>r \<in> set (r0 # news). r_milestone r = mid"
    using n(4) by (simp add: r0_def)
  moreover have "\<forall>r \<in> set (r0 # news). r_user r = u"
    using n(5) by (simp add: r0_def)
  moreover have "\<forall>r \<in> set (r0 # news). \<forall>i \<in> set (map r_id tbl). i < r_id r"
    using n(6) r0_gt by auto
  moreover have "distinct (map r_id (r0 # news))"
    using n(7) r0_new by simp
  ultimately show ?case by blast
qed

lemma set_create_milestones_flatten:
  "set (create_milestones_flatten d vd) = {m. create_eligible d vd m}"
  by (auto simp: create_milestones_flatten_def create_eligible_def take_milestones_def)

lemma create_latest_milestone_cases:
  "(create_milestones_flatten d vd = [] \<and> create_latest_milestone d vd = Inr None) \<or>
   (\<exists>i<length (create_milestones_flatten d vd).
       create_latest_milestone d vd = Inr (Some (create_milestones_flatten d vd ! i)) \<and>
       (\<forall>j<length (create_milestones_flatten d vd).
           m_response_at (create_milestones_flatten d vd ! j)
             \<le> m_response_at (create_milestones_flatten d vd ! i)) \<and>
       (\<forall>j<i. m_response_at (create_milestones_flatten d vd ! j)
             < m_response_at (create_milestones_flatten d vd ! i)))"
proof (cases "create_milestones_flatten d vd = []")
  case True
  then show ?thesis by (simp add: create_latest_milestone_def)
next
  case False
  let ?l = "create_milestones_flatten d vd"
  from reduce_latest_first[OF False, of m_response_at] obtain i where
    i: "i < length ?l"
    "reduce (\<lambda>a b. if m_response_at a < m_response_at b then b else a) ?l = Inr (?l ! i)"
    "\<forall>j<length ?l. m_response_at (?l ! j) \<le> m_response_at (?l ! i)"
    "\<forall>j<i. m_response_at (?l ! j) < m_response_at (?l ! i)"
    by blast
  have "create_latest_milestone d vd = Inr (Some (?l ! i))"
    using False i(2) by (simp add: create_latest_milestone_def Let_def)
  with i(1,3,4) show ?thesis by blast
qed

lemma create_latest_in_flatten:
  assumes "create_latest_milestone d vd = Inr (Some m)"
  shows "m \<in> set (create_milestones_flatten d vd)"
  using create_latest_milestone_cases[of d vd] assms by auto

lemma create_latest_milestone_total:
  "\<exists>r. create_latest_milestone d vd = Inr r"
  using create_latest_milestone_cases[of d vd] by auto

text \<open>
  Claim C2, as the code has it. The serializer does not call the resolver of the
  suggestions view: it has a query of its own, over the takes with the same question on
  the same article as the new take, and keeps the milestones that are no copy and have a
  found marker. Among these it takes the latest \<open>response_at\<close>, the first on a tie,
  and None when there is none.
\<close>

theorem create_latest_milestone_same_article:
  "set (create_milestones_flatten d vd) = {m. create_eligible d vd m} \<and>
   (create_milestones_flatten d vd = [] \<longrightarrow> create_latest_milestone d vd = Inr None) \<and>
   (create_milestones_flatten d vd \<noteq> [] \<longrightarrow>
      (\<exists>i<length (create_milestones_flatten d vd).
          create_latest_milestone d vd = Inr (Some (create_milestones_flatten d vd ! i)) \<and>
          (\<forall>j<length (create_milestones_flatten d vd).
              m_response_at (create_milestones_flatten d vd ! j)
                \<le> m_response_at (create_milestones_flatten d vd ! i)) \<and>
          (\<forall>j<i. m_response_at (create_milestones_flatten d vd ! j)
                < m_response_at (create_milestones_flatten d vd ! i))))"
proof (intro conjI impI)
  show "set (create_milestones_flatten d vd) = {m. create_eligible d vd m}"
    by (rule set_create_milestones_flatten)
next
  assume "create_milestones_flatten d vd = []"
  then show "create_latest_milestone d vd = Inr None"
    by (simp add: create_latest_milestone_def)
next
  assume "create_milestones_flatten d vd \<noteq> []"
  with create_latest_milestone_cases[of d vd]
  show "\<exists>i<length (create_milestones_flatten d vd).
          create_latest_milestone d vd = Inr (Some (create_milestones_flatten d vd ! i)) \<and>
          (\<forall>j<length (create_milestones_flatten d vd).
              m_response_at (create_milestones_flatten d vd ! j)
                \<le> m_response_at (create_milestones_flatten d vd ! i)) \<and>
          (\<forall>j<i. m_response_at (create_milestones_flatten d vd ! j)
                < m_response_at (create_milestones_flatten d vd ! i))"
    by (elim disjE conjE) simp_all
qed


lemma create_with_source:
  assumes src: "create_latest_milestone d vd = Inr (Some src)"
  shows "\<exists>news.
     create d u vd now =
       (Inr \<lparr>t_id = next_pk (map t_id (take_objects d)), t_user = u,
             t_article = vd_article vd, t_question = vd_question vd\<rparr>,
        d\<lparr>take_objects := take_objects d @
               [\<lparr>t_id = next_pk (map t_id (take_objects d)), t_user = u,
                 t_article = vd_article vd, t_question = vd_question vd\<rparr>],
           milestone_objects := milestone_objects d @
               [\<lparr>m_id = next_pk (map m_id (milestone_objects d)), m_user = u,
                 m_take = next_pk (map t_id (take_objects d)), m_found = m_found src,
                 m_copied_from = Some (m_id src), m_response_at = now\<rparr>],
           response_objects := response_objects d @ news\<rparr>) \<and>
     map r_sentence news = map r_sentence (milestone_responses d src) \<and>
     (\<forall>r \<in> set news. r_milestone r = next_pk (map m_id (milestone_objects d))) \<and>
     (\<forall>r \<in> set news. r_user r = u) \<and>
     (\<forall>r \<in> set news. r_id r \<notin> set (map r_id (response_objects d))) \<and>
     distinct (map r_id news)"
proof -
  define mid where "mid = next_pk (map m_id (milestone_objects d))"
  from copy_responses_appends[of "milestone_responses d src" mid u "response_objects d"]
  obtain news where
    n: "copy_responses (milestone_responses d src) mid u (response_objects d)
          = response_objects d @ news"
      "map r_sentence news = map r_sentence (milestone_responses d src)"
      "\<forall>r \<in> set news. r_milestone r = mid"
      "\<forall>r \<in> set news. r_user r = u"
      "\<forall>r \<in> set news. \<forall>i \<in> set (map r_id (response_objects d)). i < r_id r"
      "distinct (map r_id news)"
    by blast
  have fresh: "\<forall>r \<in> set news. r_id r \<notin> set (map r_id (response_objects d))"
    using n(5) by fastforce
  have "create d u vd now =
       (Inr \<lparr>t_id = next_pk (map t_id (take_objects d)), t_user = u,
             t_article = vd_article vd, t_question = vd_question vd\<rparr>,
        d\<lparr>take_objects := take_objects d @
               [\<lparr>t_id = next_pk (map t_id (take_objects d)), t_user = u,
                 t_article = vd_article vd, t_question = vd_question vd\<rparr>],
           milestone_objects := milestone_objects d @
               [\<lparr>m_id = mid, m_user = u,
                 m_take = next_pk (map t_id (take_objects d)), m_found = m_found src,
                 m_copied_from = Some (m_id src), m_response_at = now\<rparr>],
           response_objects := response_objects d @ news\<rparr>)"
    using n(1)
    unfolding create_def src Let_def
    by (simp add: milestone_responses_def mid_def)
  then show ?thesis
    using n(2,3,4) fresh n(6) unfolding mid_def by blast
qed

lemma create_without_source:
  assumes "create_latest_milestone d vd = Inr None"
  shows "create d u vd now =
       (Inr \<lparr>t_id = next_pk (map t_id (take_objects d)), t_user = u,
             t_article = vd_article vd, t_question = vd_question vd\<rparr>,
        d\<lparr>take_objects := take_objects d @
               [\<lparr>t_id = next_pk (map t_id (take_objects d)), t_user = u,
                 t_article = vd_article vd, t_question = vd_question vd\<rparr>],
           milestone_objects := milestone_objects d @
               [\<lparr>m_id = next_pk (map m_id (milestone_objects d)), m_user = u,
                 m_take = next_pk (map t_id (take_objects d)), m_found = None,
                 m_copied_from = None, m_response_at = now\<rparr>]\<rparr>)"
  unfolding create_def assms Let_def by simp

lemma fk_no_milestone_of_new_take:
  assumes "fk_integrity d"
  shows "filter (\<lambda>m. m_take m = next_pk (map t_id (take_objects d))) (milestone_objects d) = []"
proof -
  define k where "k = next_pk (map t_id (take_objects d))"
  have "k \<notin> set (map t_id (take_objects d))"
    unfolding k_def by (rule next_pk_fresh)
  moreover have "\<forall>m \<in> set (milestone_objects d). m_take m \<in> set (map t_id (take_objects d))"
    using assms unfolding fk_integrity_def by (rule conjunct1)
  ultimately have "\<forall>m \<in> set (milestone_objects d). m_take m \<noteq> k"
    by blast
  then show ?thesis unfolding k_def by (simp add: filter_empty_conv)
qed

lemma fk_no_response_of_new_milestone:
  assumes "fk_integrity d"
  shows "filter (\<lambda>r. r_milestone r = next_pk (map m_id (milestone_objects d)))
           (response_objects d) = []"
proof -
  define k where "k = next_pk (map m_id (milestone_objects d))"
  have "k \<notin> set (map m_id (milestone_objects d))"
    unfolding k_def by (rule next_pk_fresh)
  moreover have "\<forall>r \<in> set (response_objects d).
      r_milestone r \<in> set (map m_id (milestone_objects d))"
    using assms unfolding fk_integrity_def by (rule conjunct2)
  ultimately have "\<forall>r \<in> set (response_objects d). r_milestone r \<noteq> k"
    by blast
  then show ?thesis unfolding k_def by (simp add: filter_empty_conv)
qed


lemma create_with_source_fk:
  assumes fk: "fk_integrity d"
    and src: "create_latest_milestone d vd = Inr (Some src)"
  shows "\<exists>tk d' m news.
     create d u vd now = (Inr tk, d') \<and>
     tk \<in> set (take_objects d') \<and> t_user tk = u \<and>
     t_article tk = vd_article vd \<and> t_question tk = vd_question vd \<and>
     take_milestones d' tk = [m] \<and>
     m_found m = m_found src \<and> m_copied_from m = Some (m_id src) \<and>
     milestone_responses d' m = news \<and>
     milestone_responses d' src = milestone_responses d src \<and>
     map r_sentence news = map r_sentence (milestone_responses d src) \<and>
     (\<forall>r \<in> set news. r_user r = u) \<and>
     (\<forall>r \<in> set news. r_id r \<notin> set (map r_id (response_objects d))) \<and>
     distinct (map r_id news)"
proof -
  define tid where "tid = next_pk (map t_id (take_objects d))"
  define mid where "mid = next_pk (map m_id (milestone_objects d))"
  define tk where "tk = \<lparr>t_id = tid, t_user = u, t_article = vd_article vd,
                          t_question = vd_question vd\<rparr>"
  define m where "m = \<lparr>m_id = mid, m_user = u, m_take = tid, m_found = m_found src,
                        m_copied_from = Some (m_id src), m_response_at = now\<rparr>"
  from create_with_source[OF src, of u now] obtain news where
    n: "create d u vd now =
         (Inr tk, d\<lparr>take_objects := take_objects d @ [tk],
                    milestone_objects := milestone_objects d @ [m],
                    response_objects := response_objects d @ news\<rparr>)"
      "map r_sentence news = map r_sentence (milestone_responses d src)"
      "\<forall>r \<in> set news. r_milestone r = mid"
      "\<forall>r \<in> set news. r_user r = u"
      "\<forall>r \<in> set news. r_id r \<notin> set (map r_id (response_objects d))"
      "distinct (map r_id news)"
    unfolding tk_def m_def tid_def mid_def by blast
  let ?d' = "d\<lparr>take_objects := take_objects d @ [tk],
                 milestone_objects := milestone_objects d @ [m],
                 response_objects := response_objects d @ news\<rparr>"
  have tm: "take_milestones ?d' tk = [m]"
    using fk_no_milestone_of_new_take[OF fk]
    by (simp add: take_milestones_def tk_def m_def tid_def)
  have new: "filter (\<lambda>r. r_milestone r = mid) news = news"
    using n(3) by (simp add: filter_id_conv)
  have mr: "milestone_responses ?d' m = news"
    using fk_no_response_of_new_milestone[OF fk] new
    by (simp add: milestone_responses_def m_def mid_def)
  have "src \<in> set (milestone_objects d)"
    using create_latest_in_flatten[OF src] set_create_milestones_flatten[of d vd]
    by (simp add: create_eligible_def)
  then have "m_id src < mid"
    unfolding mid_def by (intro next_pk_greater) simp
  then have "\<forall>r \<in> set news. r_milestone r \<noteq> m_id src"
    using n(3) by simp
  then have "filter (\<lambda>r. r_milestone r = m_id src) news = []"
    by (simp add: filter_empty_conv)
  then have sr: "milestone_responses ?d' src = milestone_responses d src"
    by (simp add: milestone_responses_def)
  have "tk \<in> set (take_objects ?d')" by simp
  moreover have "t_user tk = u" "t_article tk = vd_article vd" "t_question tk = vd_question vd"
    by (simp_all add: tk_def)
  moreover have "m_found m = m_found src" "m_copied_from m = Some (m_id src)"
    by (simp_all add: m_def)
  ultimately show ?thesis
    using n(1,2,4,5,6) tm mr sr by blast
qed

lemma create_without_source_fk:
  assumes fk: "fk_integrity d"
    and none: "create_latest_milestone d vd = Inr None"
  shows "\<exists>tk d' m.
     create d u vd now = (Inr tk, d') \<and>
     tk \<in> set (take_objects d') \<and> t_user tk = u \<and>
     t_article tk = vd_article vd \<and> t_question tk = vd_question vd \<and>
     take_milestones d' tk = [m] \<and>
     m_found m = None \<and> m_copied_from m = None \<and>
     milestone_responses d' m = []"
proof -
  define tid where "tid = next_pk (map t_id (take_objects d))"
  define mid where "mid = next_pk (map m_id (milestone_objects d))"
  define tk where "tk = \<lparr>t_id = tid, t_user = u, t_article = vd_article vd,
                          t_question = vd_question vd\<rparr>"
  define m where "m = \<lparr>m_id = mid, m_user = u, m_take = tid, m_found = None,
                        m_copied_from = None, m_response_at = now\<rparr>"
  let ?d' = "d\<lparr>take_objects := take_objects d @ [tk],
                 milestone_objects := milestone_objects d @ [m]\<rparr>"
  have c: "create d u vd now = (Inr tk, ?d')"
    using create_without_source[OF none, of u now]
    unfolding tk_def m_def tid_def mid_def .
  have tm: "take_milestones ?d' tk = [m]"
    using fk_no_milestone_of_new_take[OF fk]
    by (simp add: take_milestones_def tk_def m_def tid_def)
  have mr: "milestone_responses ?d' m = []"
    using fk_no_response_of_new_milestone[OF fk]
    by (simp add: milestone_responses_def m_def mid_def)
  have "tk \<in> set (take_objects ?d')" by simp
  moreover have "t_user tk = u" "t_article tk = vd_article vd" "t_question tk = vd_question vd"
    by (simp_all add: tk_def)
  moreover have "m_found m = None" "m_copied_from m = None"
    by (simp_all add: m_def)
  ultimately show ?thesis
    using c tm mr by blast
qed

text \<open>
  Claim C4. Creating a take always succeeds, and the new take then has exactly one
  milestone: a copy (found and copied_from taken from the source) when the serializer
  selected a source, and otherwise a milestone with no found marker, no copied_from and no
  response.
\<close>

theorem create_one_milestone:
  assumes "fk_integrity d"
  shows "\<exists>tk d' m.
     create d u vd now = (Inr tk, d') \<and>
     tk \<in> set (take_objects d') \<and> t_user tk = u \<and>
     t_article tk = vd_article vd \<and> t_question tk = vd_question vd \<and>
     take_milestones d' tk = [m] \<and>
     (\<forall>src. create_latest_milestone d vd = Inr (Some src) \<longrightarrow>
        m_copied_from m = Some (m_id src) \<and> m_found m = m_found src) \<and>
     (create_latest_milestone d vd = Inr None \<longrightarrow>
        m_found m = None \<and> m_copied_from m = None \<and> milestone_responses d' m = [])"
proof -
  from create_latest_milestone_total[of d vd] obtain r where
    r: "create_latest_milestone d vd = Inr r" by blast
  show ?thesis
  proof (cases r)
    case None
    with r have none: "create_latest_milestone d vd = Inr None" by simp
    from create_without_source_fk[OF assms none, of u now] show ?thesis
      unfolding none by auto
  next
    case (Some src)
    with r have src: "create_latest_milestone d vd = Inr (Some src)" by simp
    from create_with_source_fk[OF assms src, of u now] show ?thesis
      unfolding src by auto
  qed
qed

text \<open>
  Claim C5. When a source is selected, the milestone of the new take has the found marker
  of the source and the source as copied_from; its responses name the same sentences as
  those of the source, in the same order and number, belong to the new user, and carry
  primary keys that are pairwise distinct and that no response had before. The source
  keeps its own responses.
\<close>

theorem create_copies_responses:
  assumes "fk_integrity d"
    and "create_latest_milestone d vd = Inr (Some src)"
  shows "\<exists>tk d' m.
     create d u vd now = (Inr tk, d') \<and> take_milestones d' tk = [m] \<and>
     m_found m = m_found src \<and> m_copied_from m = Some (m_id src) \<and>
     map r_sentence (milestone_responses d' m) = map r_sentence (milestone_responses d src) \<and>
     length (milestone_responses d' m) = length (milestone_responses d src) \<and>
     (\<forall>r \<in> set (milestone_responses d' m).
        r_user r = u \<and> r_id r \<notin> set (map r_id (response_objects d))) \<and>
     distinct (map r_id (milestone_responses d' m)) \<and>
     milestone_responses d' src = milestone_responses d src"
proof -
  from create_with_source_fk[OF assms, of u now] obtain tk d' m news where
    c: "create d u vd now = (Inr tk, d')" "take_milestones d' tk = [m]"
      "m_found m = m_found src" "m_copied_from m = Some (m_id src)"
      "milestone_responses d' m = news"
      "milestone_responses d' src = milestone_responses d src"
      "map r_sentence news = map r_sentence (milestone_responses d src)"
      "\<forall>r \<in> set news. r_user r = u"
      "\<forall>r \<in> set news. r_id r \<notin> set (map r_id (response_objects d))"
      "distinct (map r_id news)"
    by blast
  have "length news = length (milestone_responses d src)"
    using c(7) by (metis length_map)
  with c show ?thesis by blast
qed


theorem create_latest_milestone_same_article_witness:
  "create_milestones_flatten db_example \<lparr>vd_article = 1, vd_question = 1\<rparr> = [M1, M4] \<and>
   create_latest_milestone db_example \<lparr>vd_article = 1, vd_question = 1\<rparr> = Inr (Some M4) \<and>
   create_milestones_flatten db_example \<lparr>vd_article = 3, vd_question = 1\<rparr> = [] \<and>
   create_latest_milestone db_example \<lparr>vd_article = 3, vd_question = 1\<rparr> = Inr None"
proof -
  let ?one = "\<lparr>vd_article = 1, vd_question = 1\<rparr>"
  let ?three = "\<lparr>vd_article = 3, vd_question = 1\<rparr>"
  have flat: "create_milestones_flatten db_example ?one = [M1, M4]"
    by code_simp
  have empty: "create_milestones_flatten db_example ?three = []"
    by code_simp
  have at: "m_response_at M1 = 10" "m_response_at M4 = 40"
    by (simp_all add: M1_def M4_def)
  have none: "create_latest_milestone db_example ?three = Inr None"
    using create_latest_milestone_same_article[of db_example ?three] empty by blast
  have ne: "create_milestones_flatten db_example ?one \<noteq> []"
    unfolding flat by simp
  from create_latest_milestone_same_article[of db_example ?one] ne
  have "\<exists>i<length (create_milestones_flatten db_example ?one).
          create_latest_milestone db_example ?one
            = Inr (Some (create_milestones_flatten db_example ?one ! i)) \<and>
          (\<forall>j<length (create_milestones_flatten db_example ?one).
              m_response_at (create_milestones_flatten db_example ?one ! j)
                \<le> m_response_at (create_milestones_flatten db_example ?one ! i)) \<and>
          (\<forall>j<i. m_response_at (create_milestones_flatten db_example ?one ! j)
                < m_response_at (create_milestones_flatten db_example ?one ! i))"
    by blast
  then obtain i where
    i: "i < length [M1, M4]"
       "create_latest_milestone db_example ?one = Inr (Some ([M1, M4] ! i))"
       "\<forall>j<length [M1, M4]. m_response_at ([M1, M4] ! j) \<le> m_response_at ([M1, M4] ! i)"
    unfolding flat by blast
  from i(1) consider "i = 0" | "i = 1" by force
  then have "i = 1"
  proof cases
    case 1
    with i(3)[rule_format, of 1] at show ?thesis by simp
  next
    case 2
    then show ?thesis .
  qed
  with i(2) have "create_latest_milestone db_example ?one = Inr (Some M4)" by simp
  with flat empty none show ?thesis by blast
qed

text \<open>
  Claim C2 as stated fails. For a new take on article 3 and question 1 the serializer
  finds no source, while the suggestions view on such a take returns milestone 2. For a new
  take on article 1 and question 1 the serializer selects milestone 4, which belongs to
  take 1 on the same article 1 and has no response; the suggestions view returns
  milestone 2 there.
\<close>

theorem create_latest_milestone_counterexample:
  "create_latest_milestone db_example \<lparr>vd_article = 3, vd_question = 1\<rparr> = Inr None \<and>
   suggestions_latest_milestone db_example
       \<lparr>t_id = 3, t_user = 2, t_article = 3, t_question = 1\<rparr> = Inr (Some M2) \<and>
   create_latest_milestone db_example \<lparr>vd_article = 1, vd_question = 1\<rparr> = Inr (Some M4) \<and>
   get_object (take_objects db_example) (m_take M4)
     = Inr \<lparr>t_id = 1, t_user = 1, t_article = 1, t_question = 1\<rparr> \<and>
   milestone_responses db_example M4 = [] \<and>
   suggestions_latest_milestone db_example
       \<lparr>t_id = 3, t_user = 2, t_article = 1, t_question = 1\<rparr> = Inr (Some M2)"
proof -
  have a: "create_latest_milestone db_example \<lparr>vd_article = 3, vd_question = 1\<rparr> = Inr None"
    by code_simp
  have b: "suggestions_latest_milestone db_example
       \<lparr>t_id = 3, t_user = 2, t_article = 3, t_question = 1\<rparr> = Inr (Some M2)"
    by code_simp
  have c: "create_latest_milestone db_example \<lparr>vd_article = 1, vd_question = 1\<rparr>
      = Inr (Some M4)"
    by code_simp
  have d: "get_object (take_objects db_example) (m_take M4)
     = Inr \<lparr>t_id = 1, t_user = 1, t_article = 1, t_question = 1\<rparr>"
    by code_simp
  have e: "milestone_responses db_example M4 = []"
    by code_simp
  have f: "suggestions_latest_milestone db_example
       \<lparr>t_id = 3, t_user = 2, t_article = 1, t_question = 1\<rparr> = Inr (Some M2)"
    by code_simp
  from a b c d e f show ?thesis by blast
qed

theorem create_one_milestone_witness:
  "fk_integrity db_example \<and>
   create_latest_milestone db_example \<lparr>vd_article = 3, vd_question = 1\<rparr> = Inr None \<and>
   (\<exists>tk d' m. create db_example 2 \<lparr>vd_article = 3, vd_question = 1\<rparr> 50 = (Inr tk, d') \<and>
      take_milestones d' tk = [m] \<and> m_found m = None \<and> m_copied_from m = None \<and>
      milestone_responses d' m = []) \<and>
   create_latest_milestone db_example \<lparr>vd_article = 2, vd_question = 1\<rparr> = Inr (Some M2) \<and>
   (\<exists>tk d' m. create db_example 4 \<lparr>vd_article = 2, vd_question = 1\<rparr> 50 = (Inr tk, d') \<and>
      take_milestones d' tk = [m] \<and> m_copied_from m = Some (m_id M2) \<and>
      m_found m = m_found M2)"
proof -
  let ?three = "\<lparr>vd_article = 3, vd_question = 1\<rparr>"
  let ?two = "\<lparr>vd_article = 2, vd_question = 1\<rparr>"
  have fk: "fk_integrity db_example"
    by code_simp
  have none: "create_latest_milestone db_example ?three = Inr None"
    by code_simp
  have some: "create_latest_milestone db_example ?two = Inr (Some M2)"
    by code_simp
  from create_one_milestone[OF fk, of 2 ?three 50] none
  have a: "\<exists>tk d' m. create db_example 2 ?three 50 = (Inr tk, d') \<and>
      take_milestones d' tk = [m] \<and> m_found m = None \<and> m_copied_from m = None \<and>
      milestone_responses d' m = []"
    by blast
  from create_one_milestone[OF fk, of 4 ?two 50] some
  have b: "\<exists>tk d' m. create db_example 4 ?two 50 = (Inr tk, d') \<and>
      take_milestones d' tk = [m] \<and> m_copied_from m = Some (m_id M2) \<and>
      m_found m = m_found M2"
    by blast
  from fk none a some b show ?thesis by blast
qed

theorem create_copies_responses_witness:
  "fk_integrity db_example \<and>
   create_latest_milestone db_example \<lparr>vd_article = 2, vd_question = 1\<rparr> = Inr (Some M2) \<and>
   map r_sentence (milestone_responses db_example M2) = [21, 20, 21] \<and>
   (\<exists>tk d' m. create db_example 4 \<lparr>vd_article = 2, vd_question = 1\<rparr> 50 = (Inr tk, d') \<and>
      take_milestones d' tk = [m] \<and> m_copied_from m = Some (m_id M2) \<and>
      map r_sentence (milestone_responses d' m) = [21, 20, 21] \<and>
      length (milestone_responses d' m) = 3 \<and>
      distinct (map r_id (milestone_responses d' m)))"
proof -
  let ?two = "\<lparr>vd_article = 2, vd_question = 1\<rparr>"
  have fk: "fk_integrity db_example"
    by code_simp
  have some: "create_latest_milestone db_example ?two = Inr (Some M2)"
    by code_simp
  have sent: "map r_sentence (milestone_responses db_example M2) = [21, 20, 21]"
    by code_simp
  have len: "length (milestone_responses db_example M2) = 3"
    using sent by (metis length_map length_Cons list.size(3) numeral_3_eq_3)
  from create_copies_responses[OF fk some, of 4 50]
  have c: "\<exists>tk d' m. create db_example 4 ?two 50 = (Inr tk, d') \<and>
      take_milestones d' tk = [m] \<and> m_copied_from m = Some (m_id M2) \<and>
      map r_sentence (milestone_responses d' m) = [21, 20, 21] \<and>
      length (milestone_responses d' m) = 3 \<and>
      distinct (map r_id (milestone_responses d' m))"
    unfolding sent len
    apply (elim exE conjE)
    subgoal for tk d' m
      apply (rule exI[of _ tk])
      apply (rule exI[of _ d'])
      apply (rule exI[of _ m])
      apply (intro conjI)
      apply assumption+
      done
    done
  show ?thesis
    by (rule conjI[OF fk conjI[OF some conjI[OF sent c]]])
qed

end
